theory Spec2Isabelle
  imports Complex_Main "HOL-Library.Log_Nat"
begin

section \<open>Conventions of the embedding\<close>

text \<open>
  The repository is a Mongoose/Express backend. The model layer (Account, Transaction,
  Budget, Goal) and the transaction routes are embedded here.

  \<^item> A JavaScript Number that holds money is a rational (\<open>rat\<close>). Sums and differences of
    balances and amounts are read as exact. Where the source rounds a computed quotient to
    an integer (\<open>percentageUsed\<close>), every operation is rounded to binary64 as the runtime
    does, because there the rounding decides the integer.
  \<^item> A Date is its time value, an \<open>int\<close> of milliseconds since the epoch.
  \<^item> An ObjectId is a \<open>nat\<close>. A collection that is only looked up by id is a map from
    ids to documents; a collection that is scanned is a list.
  \<^item> A document is the record of the schema paths that the modelled code reads or
    writes; paths that only carry text for display are left out.
  \<^item> \<open>doc.save()\<close> of Mongoose runs the schema validators first, then the \<open>pre("save")\<close>
    hooks in the order of their declaration, then writes the document, then runs the
    \<open>post("save")\<close> hooks. A validator or hook that fails rejects the save and nothing is
    written. \<open>findByIdAndUpdate\<close> runs neither validators nor hooks.
  \<^item> A rejected promise or a \<open>throw\<close> is the \<open>Inl\<close> of a sum; \<open>try/catch\<close> is a case
    distinction on it.
\<close>

type_synonym oid = nat
type_synonym date = int

datatype error =
    ValidationError
  | SoldeInsuffisant
  | TransferDestinationRequired
  | TransferSameAccount
  | EndDateNotAfterStartDate
  | TargetDateNotInFuture
  | TypeError

section \<open>Account model\<close>

datatype account_type = Checking | Savings | Credit | Investment

record account =
  acc_userId :: oid
  acc_type :: account_type
  acc_balance :: rat
  acc_isActive :: bool

type_synonym accounts = "oid \<rightharpoonup> account"

text \<open>Schema validator of \<open>balance\<close>: \<open>min: [0, "Le solde ne peut pas etre negatif"]\<close>.\<close>

definition account_validate :: "account \<Rightarrow> bool" where
  "account_validate a \<longleftrightarrow> 0 \<le> acc_balance a"

text \<open>\<open>accountSchema.pre("save")\<close>: a negative balance of a credit account is replaced by
  its absolute value.\<close>

definition account_pre_save :: "account \<Rightarrow> account" where
  "account_pre_save a =
     (if acc_type a = Credit \<and> acc_balance a < 0
      then a\<lparr>acc_balance := \<bar>acc_balance a\<bar>\<rparr>
      else a)"

text \<open>\<open>account.save()\<close> for the document stored under id \<open>i\<close>.\<close>

definition account_save :: "oid \<Rightarrow> account \<Rightarrow> accounts \<Rightarrow> error + accounts" where
  "account_save i a db =
     (if \<not> account_validate a then Inl ValidationError
      else Inr (db(i \<mapsto> account_pre_save a)))"

text \<open>\<open>accountSchema.methods.updateBalance(amount, operation)\<close>. The operation is the
  string of the source: \<open>"add"\<close>, \<open>"subtract"\<close>, and anything else sets the balance.\<close>

definition updateBalance :: "oid \<Rightarrow> account \<Rightarrow> rat \<Rightarrow> string \<Rightarrow> accounts \<Rightarrow> error + accounts" where
  "updateBalance i this amount operation db =
     (let this' =
            (if operation = ''add'' then this\<lparr>acc_balance := acc_balance this + amount\<rparr>
             else if operation = ''subtract'' then this\<lparr>acc_balance := acc_balance this - amount\<rparr>
             else this\<lparr>acc_balance := amount\<rparr>)
      in if acc_type this' \<noteq> Credit \<and> acc_balance this' < 0 then Inl SoldeInsuffisant
         else account_save i this' db)"

text \<open>\<open>Account.findByIdAndUpdate(id, { $inc: { balance: d } })\<close>: an atomic increment in
  the database, without validators and hooks; an unknown id changes nothing.\<close>

definition inc_balance :: "oid \<Rightarrow> rat \<Rightarrow> accounts \<Rightarrow> accounts" where
  "inc_balance i d db =
     (case db i of
        None \<Rightarrow> db
      | Some a \<Rightarrow> db(i \<mapsto> a\<lparr>acc_balance := acc_balance a + d\<rparr>))"

section \<open>Transaction model\<close>

datatype tx_type = Income | Expense | Transfer

datatype tx_status = Pending | Completed | Cancelled

record txn =
  tx_userId :: oid
  tx_accountId :: oid
  tx_categoryId :: oid
  tx_type :: tx_type
  tx_amount :: rat
  tx_date :: date
  tx_transferAccountId :: "oid option"
  tx_status :: tx_status

text \<open>Schema validator of \<open>amount\<close>: \<open>min: [0.01, ...]\<close>.\<close>

definition transaction_validate :: "txn \<Rightarrow> bool" where
  "transaction_validate t \<longleftrightarrow> 1 / 100 \<le> tx_amount t"

text \<open>\<open>transactionSchema.pre("save")\<close>: a transfer needs a destination account that is
  not the source account.\<close>

definition transaction_pre_save :: "txn \<Rightarrow> error + txn" where
  "transaction_pre_save t =
     (if tx_type t = Transfer \<and> tx_transferAccountId t = None
        then Inl TransferDestinationRequired
      else if tx_type t = Transfer \<and> tx_transferAccountId t = Some (tx_accountId t)
        then Inl TransferSameAccount
      else Inr t)"

text \<open>\<open>transactionSchema.post("save")\<close>. The source account is loaded and its balance is
  changed in memory according to the type. For a transfer the destination account is
  loaded, credited and saved first. The source account is saved last. Every error is
  caught and logged, so whatever was written before the error stays written.\<close>

definition credit_destination :: "txn \<Rightarrow> accounts \<Rightarrow> error + accounts" where
  "credit_destination doc db =
     (case tx_transferAccountId doc of
        None \<Rightarrow> Inr db
      | Some d \<Rightarrow>
          (case db d of
             None \<Rightarrow> Inr db
           | Some destinationAccount \<Rightarrow>
               account_save d
                 (destinationAccount\<lparr>acc_balance := acc_balance destinationAccount + tx_amount doc\<rparr>)
                 db))"

definition transaction_post_save :: "txn \<Rightarrow> accounts \<Rightarrow> accounts" where
  "transaction_post_save doc db =
     (case db (tx_accountId doc) of
        None \<Rightarrow> db
      | Some account \<Rightarrow>
          (case
             (case tx_type doc of
                Income \<Rightarrow> Inr (account\<lparr>acc_balance := acc_balance account + tx_amount doc\<rparr>, db)
              | Expense \<Rightarrow> Inr (account\<lparr>acc_balance := acc_balance account - tx_amount doc\<rparr>, db)
              | Transfer \<Rightarrow>
                  (case credit_destination doc db of
                     Inl e \<Rightarrow> Inl e
                   | Inr db' \<Rightarrow>
                       Inr (account\<lparr>acc_balance := acc_balance account - tx_amount doc\<rparr>, db')))
           of
             Inl e \<Rightarrow> db
           | Inr (account', db') \<Rightarrow>
               (case account_save (tx_accountId doc) account' db' of
                  Inl e \<Rightarrow> db'
                | Inr db'' \<Rightarrow> db'')))"

text \<open>The database: the accounts by id and the transactions by id.\<close>

record database =
  db_accounts :: accounts
  db_transactions :: "oid \<rightharpoonup> txn"

text \<open>\<open>transaction.save()\<close> for the document with id \<open>i\<close>: validators, pre-save hook,
  write, post-save hook. The same method creates a new document and rewrites an
  existing one, and the post-save hook runs in both cases.\<close>

definition transaction_save :: "oid \<Rightarrow> txn \<Rightarrow> database \<Rightarrow> (error + txn) \<times> database" where
  "transaction_save i t s =
     (if \<not> transaction_validate t then (Inl ValidationError, s)
      else
        (case transaction_pre_save t of
           Inl e \<Rightarrow> (Inl e, s)
         | Inr t' \<Rightarrow>
             (Inr t',
              \<lparr>db_accounts = transaction_post_save t' (db_accounts s),
               db_transactions = (db_transactions s)(i \<mapsto> t')\<rparr>)))"

section \<open>Transaction routes\<close>

datatype response = Ok200 | BadRequest400 | NotFound404 | ServerError500

text \<open>The fields of the request body that the handlers of \<open>PUT /:id\<close> read. The
  \<open>validateTransaction\<close> middleware runs before the handler: it answers 400 unless the
  amount is a number of at least 0.01 and the date is present, so \<open>date || transaction.date\<close>
  is the date of the body.\<close>

record tx_body =
  b_accountId :: oid
  b_categoryId :: oid
  b_amount :: rat
  b_date :: date

definition validateTransaction :: "tx_body \<Rightarrow> bool" where
  "validateTransaction b \<longleftrightarrow> 1 / 100 \<le> b_amount b"

text \<open>\<open>Transaction.findOne({ _id, userId })\<close> and \<open>Account.findOne({ _id, userId })\<close>.\<close>

definition findOne_transaction :: "oid \<Rightarrow> oid \<Rightarrow> database \<Rightarrow> txn option" where
  "findOne_transaction i user s =
     (case db_transactions s i of
        None \<Rightarrow> None
      | Some t \<Rightarrow> if tx_userId t = user then Some t else None)"

definition findOne_account :: "oid \<Rightarrow> oid \<Rightarrow> database \<Rightarrow> account option" where
  "findOne_account i user s =
     (case db_accounts s i of
        None \<Rightarrow> None
      | Some a \<Rightarrow> if acc_userId a = user then Some a else None)"

text \<open>\<open>populate("accountId", "name bank type")\<close> loads the account of a transaction with
  the paths \<open>name\<close>, \<open>bank\<close> and \<open>type\<close> only. Of the paths that the virtuals of the
  account schema read, \<open>type\<close> is present; \<open>currency\<close> is not selected and is undefined in
  the loaded document.\<close>

record populated_account =
  pa_type :: account_type
  pa_currency :: "string option"

definition populate_accountId :: "oid \<Rightarrow> accounts \<Rightarrow> populated_account option" where
  "populate_accountId i db =
     (case db i of
        None \<Rightarrow> None
      | Some a \<Rightarrow> Some \<lparr>pa_type = acc_type a, pa_currency = None\<rparr>)"

text \<open>\<open>accountSchema.virtual("formattedBalance")\<close> builds
  \<open>new Intl.NumberFormat("fr-SN", { style: "currency", currency: ... })\<close> with the currency
  \<open>this.currency === "CFA" ? "XOF" : this.currency\<close>. The constructor throws a TypeError when
  the style is \<open>"currency"\<close> and the currency is undefined. The formatted text itself is not
  modelled.\<close>

definition formattedBalance :: "populated_account \<Rightarrow> error + unit" where
  "formattedBalance this =
     (case (if pa_currency this = Some ''CFA'' then Some ''XOF'' else pa_currency this) of
        None \<Rightarrow> Inl TypeError
      | Some currency \<Rightarrow> Inr ())"

text \<open>\<open>res.json\<close> of a transaction whose \<open>accountId\<close> is populated: the schemas have
  \<open>toJSON: { virtuals: true }\<close>, so the virtuals of the populated account run. An account
  that does not exist is populated as \<open>null\<close> and runs no virtual.\<close>

definition res_json_transaction :: "txn \<Rightarrow> accounts \<Rightarrow> error + unit" where
  "res_json_transaction t db =
     (case populate_accountId (tx_accountId t) db of
        None \<Rightarrow> Inr ()
      | Some account \<Rightarrow> formattedBalance account)"

text \<open>\<open>router.put("/:id")\<close>. When the account changes, the old account is decremented by
  the old amount and the new account incremented by the new amount; when only the amount
  changes, the account is incremented by the difference. Then the fields are assigned and
  the transaction is saved, which runs the post-save hook of the model. At last the
  transaction is read again with its account populated and sent with \<open>res.json\<close>; an error
  there is caught like any other and answered with 500, after the writes.\<close>

definition route_put :: "oid \<Rightarrow> oid \<Rightarrow> tx_body \<Rightarrow> database \<Rightarrow> response \<times> database" where
  "route_put user i body s =
     (if \<not> validateTransaction body then (BadRequest400, s)
      else
        (case findOne_transaction i user s of
           None \<Rightarrow> (NotFound404, s)
         | Some transaction \<Rightarrow>
             (case
                (if b_accountId body \<noteq> tx_accountId transaction then
                   (case findOne_account (b_accountId body) user s of
                      None \<Rightarrow> None
                    | Some account \<Rightarrow>
                        Some (inc_balance (b_accountId body) (b_amount body)
                               (inc_balance (tx_accountId transaction) (- tx_amount transaction)
                                 (db_accounts s))))
                 else if b_amount body \<noteq> tx_amount transaction then
                   (let difference = b_amount body - tx_amount transaction
                    in Some (inc_balance (b_accountId body) difference (db_accounts s)))
                 else Some (db_accounts s))
              of
                None \<Rightarrow> (NotFound404, s)
              | Some accs \<Rightarrow>
                  (case transaction_save i
                          (transaction\<lparr>tx_accountId := b_accountId body,
                                       tx_categoryId := b_categoryId body,
                                       tx_amount := b_amount body,
                                       tx_date := b_date body\<rparr>)
                          (s\<lparr>db_accounts := accs\<rparr>)
                   of
                     (Inl e, s') \<Rightarrow> (ServerError500, s')
                   | (Inr t, s') \<Rightarrow>
                       (case db_transactions s' i of
                          None \<Rightarrow> (Ok200, s')
                        | Some updatedTransaction \<Rightarrow>
                            (case res_json_transaction updatedTransaction (db_accounts s') of
                               Inl e \<Rightarrow> (ServerError500, s')
                             | Inr u \<Rightarrow> (Ok200, s')))))))"

text \<open>\<open>router.delete("/:id")\<close>: \<open>Transaction.findOneAndDelete({ _id, userId })\<close> and
  nothing else.\<close>

definition route_delete :: "oid \<Rightarrow> oid \<Rightarrow> database \<Rightarrow> response \<times> database" where
  "route_delete user i s =
     (case findOne_transaction i user s of
        None \<Rightarrow> (NotFound404, s)
      | Some transaction \<Rightarrow> (Ok200, s\<lparr>db_transactions := (db_transactions s)(i := None)\<rparr>))"

section \<open>Budget model\<close>

record budget =
  bg_userId :: oid
  bg_categoryId :: oid
  bg_amount :: rat
  bg_spent :: rat
  bg_startDate :: date
  bg_endDate :: date
  bg_alertThreshold :: rat
  bg_isActive :: bool


text \<open>The result of an arithmetic operation on Numbers: a finite binary64 value, given
  as the rational it denotes, or an infinity. Negative zero is not told apart from zero.\<close>

datatype number = Finite rat | PlusInfinity | MinusInfinity

text \<open>The exponent of a positive rational: the integer \<open>l\<close> with
  \<open>2 powi l \<le> x < 2 powi (l + 1)\<close>, from the bit length of the integer part of \<open>x\<close> or of
  \<open>1 / x\<close>.\<close>

definition ilog2 :: "rat \<Rightarrow> int" where
  "ilog2 x =
     (let l = (if 1 \<le> x then bitlen \<lfloor>x\<rfloor> - 1 else - bitlen \<lfloor>1 / x\<rfloor>)
      in if 2 powi (l + 1) \<le> x then l + 1 else l)"

text \<open>Rounding to the nearest integer, a tie going to the even one.\<close>

definition round_half_even :: "rat \<Rightarrow> int" where
  "round_half_even r =
     (let f = \<lfloor>r\<rfloor>; d = r - of_int f
      in if d < 1 / 2 then f
         else if 1 / 2 < d then f + 1
         else if even f then f else f + 1)"

text \<open>The binary64 value of an exact result \<open>x\<close> (IEEE 754 round to nearest, ties to
  even): a significand of 53 bits, the smallest exponent that of the subnormal numbers,
  and an infinity when the rounded value reaches \<open>2 powi 1024\<close>.\<close>

definition binary64 :: "rat \<Rightarrow> number" where
  "binary64 x =
     (if x = 0 then Finite 0
      else
        (let e = max (ilog2 \<bar>x\<bar> - 52) (- 1074);
             y = of_int (round_half_even (\<bar>x\<bar> / 2 powi e)) * 2 powi e
         in if 2 powi 1024 \<le> y then (if 0 < x then PlusInfinity else MinusInfinity)
            else Finite (if 0 < x then y else - y)))"

text \<open>\<open>a / b\<close> on finite Numbers, for a divisor that is not zero (the source divides
  under the guard \<open>amount > 0\<close>).\<close>

definition js_divide :: "rat \<Rightarrow> rat \<Rightarrow> number" where
  "js_divide a b = binary64 (a / b)"

text \<open>\<open>n * c\<close> for a finite positive constant \<open>c\<close> (100 in the source): an infinity
  stays the same infinity.\<close>

definition js_multiply :: "number \<Rightarrow> rat \<Rightarrow> number" where
  "js_multiply n c =
     (case n of
        Finite x \<Rightarrow> binary64 (x * c)
      | PlusInfinity \<Rightarrow> PlusInfinity
      | MinusInfinity \<Rightarrow> MinusInfinity)"

text \<open>\<open>Math.round\<close>: the nearest integer, a tie going up; an infinity is returned as it
  is. The function is exact, it does not round a second time.\<close>

definition Math_round :: "number \<Rightarrow> number" where
  "Math_round n =
     (case n of
        Finite x \<Rightarrow> Finite (of_int \<lfloor>x + 1 / 2\<rfloor>)
      | PlusInfinity \<Rightarrow> PlusInfinity
      | MinusInfinity \<Rightarrow> MinusInfinity)"

text \<open>\<open>budgetSchema.virtual("percentageUsed")\<close>:
  \<open>this.amount > 0 ? Math.round((this.spent / this.amount) * 100) : 0\<close>.\<close>

definition percentageUsed :: "budget \<Rightarrow> number" where
  "percentageUsed this =
     (if bg_amount this > 0
      then Math_round (js_multiply (js_divide (bg_spent this) (bg_amount this)) 100)
      else Finite 0)"








section \<open>Goal model\<close>

datatype goal_status = Goal_active | Goal_completed | Goal_paused | Goal_cancelled

datatype frequency = Daily | Weekly | Monthly

datatype contribution_source = Manual | Auto_save | Bonus | Transfer_in

record autoSave =
  as_enabled :: bool
  as_amount :: "rat option"
  as_frequency :: frequency
  as_nextDate :: "date option"

record milestone =
  ms_amount :: rat
  ms_achieved :: bool
  ms_achievedDate :: "date option"

record contribution =
  ct_amount :: rat
  ct_date :: date
  ct_note :: string
  ct_source :: contribution_source

record goal =
  g_userId :: oid
  g_targetAmount :: rat
  g_currentAmount :: rat
  g_targetDate :: date
  g_status :: goal_status
  g_autoSave :: autoSave
  g_milestones :: "milestone list"
  g_contributions :: "contribution list"

text \<open>The goal collection is scanned by \<open>find\<close>, so it is a list of documents with
  their ids, in the order in which \<open>find\<close> returns them.\<close>

type_synonym goals = "(oid \<times> goal) list"

text \<open>Schema validators: \<open>targetAmount\<close> at least 0.01, \<open>currentAmount\<close> at least 0,
  \<open>autoSave.amount\<close> at least 0 when present, every milestone and contribution amount at
  least 0.01.\<close>

definition goal_validate :: "goal \<Rightarrow> bool" where
  "goal_validate g \<longleftrightarrow>
     1 / 100 \<le> g_targetAmount g \<and>
     0 \<le> g_currentAmount g \<and>
     (case as_amount (g_autoSave g) of None \<Rightarrow> True | Some a \<Rightarrow> 0 \<le> a) \<and>
     list_all (\<lambda>m. 1 / 100 \<le> ms_amount m) (g_milestones g) \<and>
     list_all (\<lambda>c. 1 / 100 \<le> ct_amount c) (g_contributions g)"

text \<open>First \<open>goalSchema.pre("save")\<close>: \<open>this.targetDate <= new Date()\<close> rejects the save.
  \<open>now\<close> is the clock at the time of the save.\<close>

definition goal_pre_save_targetDate :: "date \<Rightarrow> goal \<Rightarrow> error + goal" where
  "goal_pre_save_targetDate now g =
     (if g_targetDate g \<le> now then Inl TargetDateNotInFuture else Inr g)"

text \<open>Second \<open>goalSchema.pre("save")\<close>: an active goal that has reached its target
  becomes completed.\<close>

definition goal_pre_save_status :: "goal \<Rightarrow> goal" where
  "goal_pre_save_status g =
     (if g_currentAmount g \<ge> g_targetAmount g \<and> g_status g = Goal_active
      then g\<lparr>g_status := Goal_completed\<rparr>
      else g)"

text \<open>The write of \<open>save\<close> for a document that came from the collection: the stored
  document with the same id is replaced.\<close>

definition write_goal :: "oid \<Rightarrow> goal \<Rightarrow> goals \<Rightarrow> goals" where
  "write_goal i g db = map (\<lambda>(j, h). if j = i then (j, g) else (j, h)) db"

definition goal_save :: "date \<Rightarrow> oid \<Rightarrow> goal \<Rightarrow> goals \<Rightarrow> (error + goal) \<times> goals" where
  "goal_save now i g db =
     (if \<not> goal_validate g then (Inl ValidationError, db)
      else
        (case goal_pre_save_targetDate now g of
           Inl e \<Rightarrow> (Inl e, db)
         | Inr g1 \<Rightarrow>
             (let g2 = goal_pre_save_status g1
              in (Inr g2, write_goal i g2 db))))"

text \<open>The \<open>forEach\<close> body of \<open>addContribution\<close> for one milestone.\<close>

definition check_milestone :: "date \<Rightarrow> rat \<Rightarrow> milestone \<Rightarrow> milestone" where
  "check_milestone now currentAmount milestone =
     (if \<not> ms_achieved milestone \<and> currentAmount \<ge> ms_amount milestone
      then milestone\<lparr>ms_achieved := True, ms_achievedDate := Some now\<rparr>
      else milestone)"

text \<open>The changes that \<open>addContribution\<close> makes to \<open>this\<close> before it saves: the
  contribution is pushed, the current amount grows, the milestones are checked. The clock
  readings of one call are taken as one instant \<open>now\<close>.\<close>

definition contribute :: "date \<Rightarrow> rat \<Rightarrow> string \<Rightarrow> contribution_source \<Rightarrow> goal \<Rightarrow> goal" where
  "contribute now amount note source this =
     (let currentAmount = g_currentAmount this + amount
      in this\<lparr>g_contributions :=
                 g_contributions this @
                   [\<lparr>ct_amount = amount, ct_date = now, ct_note = note, ct_source = source\<rparr>],
               g_currentAmount := currentAmount,
               g_milestones := map (check_milestone now currentAmount) (g_milestones this)\<rparr>)"

text \<open>\<open>goalSchema.methods.addContribution(amount, note, source)\<close>.\<close>

definition addContribution ::
  "date \<Rightarrow> oid \<Rightarrow> goal \<Rightarrow> rat \<Rightarrow> string \<Rightarrow> contribution_source \<Rightarrow> goals \<Rightarrow> (error + goal) \<times> goals" where
  "addContribution now i this amount note source db =
     goal_save now i (contribute now amount note source this) db"

text \<open>\<open>goalSchema.methods.calculateNextAutoSave\<close>. \<open>setDate(getDate() + n)\<close> moves the
  time value by \<open>n\<close> days of 86400000 ms (a host time zone without daylight-saving
  shifts); \<open>setMonth(getMonth() + 1)\<close> is the calendar of the host, the parameter
  \<open>addMonth\<close>.\<close>

definition msPerDay :: int where
  "msPerDay = 86400000"

definition calculateNextAutoSave :: "(date \<Rightarrow> date) \<Rightarrow> date \<Rightarrow> goal \<Rightarrow> date option" where
  "calculateNextAutoSave addMonth now this =
     (if \<not> as_enabled (g_autoSave this) then None
      else
        (let nextDate = (case as_nextDate (g_autoSave this) of None \<Rightarrow> now | Some d \<Rightarrow> d)
         in Some (case as_frequency (g_autoSave this) of
                    Daily \<Rightarrow> nextDate + 1 * msPerDay
                  | Weekly \<Rightarrow> nextDate + 7 * msPerDay
                  | Monthly \<Rightarrow> addMonth nextDate)))"

text \<open>The query of \<open>processAutoSaves\<close>: \<open>autoSave.enabled\<close>, \<open>autoSave.nextDate <= now\<close>
  (a goal without next date does not match) and status active.\<close>

definition autoSave_due :: "date \<Rightarrow> goal \<Rightarrow> bool" where
  "autoSave_due now g \<longleftrightarrow>
     as_enabled (g_autoSave g) = True \<and>
     (case as_nextDate (g_autoSave g) of None \<Rightarrow> False | Some d \<Rightarrow> d \<le> now) \<and>
     g_status g = Goal_active"

text \<open>The body of the loop of \<open>processAutoSaves\<close> for one goal, with its \<open>try/catch\<close>.
  \<open>clock\<close> gives the two clock readings of the body: during \<open>addContribution\<close> and during
  the later \<open>goal.save()\<close>. An \<open>autoSave.amount\<close> that is absent makes the contribution
  amount \<open>undefined\<close>, which the validators of the save reject. The note is
  "Epargne automatique" (written here without its accent).\<close>

definition autoSave_goal :: "(date \<Rightarrow> date) \<Rightarrow> date \<times> date \<Rightarrow> oid \<Rightarrow> goal \<Rightarrow> goals \<Rightarrow> goals" where
  "autoSave_goal addMonth clock i goal db =
     (case as_amount (g_autoSave goal) of
        None \<Rightarrow> db
      | Some amount \<Rightarrow>
          (case addContribution (fst clock) i goal amount ''Epargne automatique'' Auto_save db of
             (Inl e, db') \<Rightarrow> db'
           | (Inr goal', db') \<Rightarrow>
               (case goal_save (snd clock) i
                       (goal'\<lparr>g_autoSave := (g_autoSave goal')
                                 \<lparr>as_nextDate := calculateNextAutoSave addMonth (snd clock) goal'\<rparr>\<rparr>)
                       db'
                of
                  (Inl e, db'') \<Rightarrow> db''
                | (Inr goal'', db'') \<Rightarrow> db'')))"

fun autoSave_loop :: "(date \<Rightarrow> date) \<Rightarrow> (oid \<Rightarrow> date \<times> date) \<Rightarrow> goals \<Rightarrow> goals \<Rightarrow> goals" where
  "autoSave_loop addMonth clock [] db = db"
| "autoSave_loop addMonth clock ((i, goal) # rest) db =
     autoSave_loop addMonth clock rest (autoSave_goal addMonth (clock i) i goal db)"

text \<open>\<open>goalSchema.statics.processAutoSaves\<close>: the goals found at \<open>now\<close> are processed one
  after the other; the result is the collection afterwards and
  \<open>goalsToProcess.length\<close>.\<close>

definition processAutoSaves ::
  "(date \<Rightarrow> date) \<Rightarrow> date \<Rightarrow> (oid \<Rightarrow> date \<times> date) \<Rightarrow> goals \<Rightarrow> goals \<times> nat" where
  "processAutoSaves addMonth now clock db =
     (let goalsToProcess = filter (\<lambda>(i, g). autoSave_due now g) db
      in (autoSave_loop addMonth clock goalsToProcess db, length goalsToProcess))"


section \<open>Example documents\<close>

text \<open>Concrete documents for the evaluations below: an account of user 1, a transaction
  of user 1 on account 1 in category 5, a database with the accounts 1 and 2, a request
  body for transaction routes, a budget of user 1 for category 5 over the dates 0 to 1000,
  and a small ledger.\<close>

definition fx_account :: "account_type \<Rightarrow> rat \<Rightarrow> account" where
  "fx_account k b = \<lparr>acc_userId = 1, acc_type = k, acc_balance = b, acc_isActive = True\<rparr>"

definition fx_txn :: "tx_type \<Rightarrow> rat \<Rightarrow> oid option \<Rightarrow> txn" where
  "fx_txn k a d =
     \<lparr>tx_userId = 1, tx_accountId = 1, tx_categoryId = 5, tx_type = k, tx_amount = a,
      tx_date = 0, tx_transferAccountId = d, tx_status = Completed\<rparr>"

definition fx_db :: "account_type \<Rightarrow> rat \<Rightarrow> rat \<Rightarrow> database" where
  "fx_db k x y =
     \<lparr>db_accounts = [1 \<mapsto> fx_account k x, 2 \<mapsto> fx_account k y],
      db_transactions = Map.empty\<rparr>"

definition fx_body :: "rat \<Rightarrow> tx_body" where
  "fx_body a = \<lparr>b_accountId = 1, b_categoryId = 5, b_amount = a, b_date = 0\<rparr>"

definition fx_budget :: "rat \<Rightarrow> rat \<Rightarrow> budget" where
  "fx_budget a sp =
     \<lparr>bg_userId = 1, bg_categoryId = 5, bg_amount = a, bg_spent = sp, bg_startDate = 0,
      bg_endDate = 1000, bg_alertThreshold = 80, bg_isActive = True\<rparr>"



text \<open>A goal of user 1 with target 500000, weekly auto-save and two milestones, the first
  achieved; the same goal after one auto-save contribution at time \<open>t\<close>; a calendar that
  adds 30 days for a month; a clock that reads 100 and then 101 for every goal; a
  collection of three goals; three contribution requests.\<close>

definition fx_goal :: "rat \<Rightarrow> date \<Rightarrow> rat option \<Rightarrow> date \<Rightarrow> goal" where
  "fx_goal cur td amt nd =
     \<lparr>g_userId = 1, g_targetAmount = 500000, g_currentAmount = cur, g_targetDate = td,
      g_status = Goal_active,
      g_autoSave =
        \<lparr>as_enabled = True, as_amount = amt, as_frequency = Weekly, as_nextDate = Some nd\<rparr>,
      g_milestones =
        [\<lparr>ms_amount = 400000, ms_achieved = True, ms_achievedDate = Some 7\<rparr>,
         \<lparr>ms_amount = 480000, ms_achieved = False, ms_achievedDate = None\<rparr>],
      g_contributions = []\<rparr>"

definition fx_goal_saved :: "rat \<Rightarrow> date \<Rightarrow> rat \<Rightarrow> date \<Rightarrow> date \<Rightarrow> goal" where
  "fx_goal_saved cur td amt t nd =
     \<lparr>g_userId = 1, g_targetAmount = 500000, g_currentAmount = cur + amt, g_targetDate = td,
      g_status = Goal_active,
      g_autoSave =
        \<lparr>as_enabled = True, as_amount = Some amt, as_frequency = Weekly, as_nextDate = Some nd\<rparr>,
      g_milestones =
        [\<lparr>ms_amount = 400000, ms_achieved = True, ms_achievedDate = Some 7\<rparr>,
         \<lparr>ms_amount = 480000, ms_achieved = True, ms_achievedDate = Some t\<rparr>],
      g_contributions =
        [\<lparr>ct_amount = amt, ct_date = t, ct_note = ''Epargne automatique'',
          ct_source = Auto_save\<rparr>]\<rparr>"

definition fx_addMonth :: "date \<Rightarrow> date" where
  "fx_addMonth t = t + 30 * msPerDay"

definition fx_clock :: "oid \<Rightarrow> date \<times> date" where
  "fx_clock i = (100, 101)"

definition fx_goals :: goals where
  "fx_goals =
     [(1, fx_goal 450000 2000 (Some 40000) 50),
      (2, fx_goal 450000 100 (Some 40000) 50),
      (3, fx_goal 450000 2000 (Some 40000) 500)]"

definition fx_calls :: "(date \<times> rat \<times> string \<times> contribution_source) list" where
  "fx_calls = [(100, 40000, [], Manual), (200, - 460000, [], Manual), (300, 10, [], Bonus)]"

section \<open>Account balances and the ledger\<close>

lemmas ledger_defs =
  transaction_save_def transaction_validate_def transaction_pre_save_def
  transaction_post_save_def credit_destination_def account_save_def account_validate_def
  account_pre_save_def findOne_transaction_def findOne_account_def route_put_def
  route_delete_def inc_balance_def validateTransaction_def res_json_transaction_def
  populate_accountId_def formattedBalance_def

lemmas fx_defs = fx_account_def fx_txn_def fx_db_def fx_body_def







text \<open>
  Claim C2 (deleting a ledger entry restores the balance) does not hold of the code: the
  delete route removes the transaction and never touches an account. The scenario of the
  specification: balance 100000, an expense of 15000 is saved, the balance is 85000; the
  entry is deleted, and the balance is still 85000.
\<close>

theorem route_delete_keeps_balance:
  "db_accounts (snd (transaction_save 7 (fx_txn Expense 15000 None) (fx_db Checking 100000 0))) 1
     = Some (fx_account Checking 85000) \<and>
   route_delete 1 7 (snd (transaction_save 7 (fx_txn Expense 15000 None) (fx_db Checking 100000 0)))
     = (Ok200,
        \<lparr>db_accounts = [1 \<mapsto> fx_account Checking 85000, 2 \<mapsto> fx_account Checking 0],
         db_transactions = Map.empty\<rparr>)"
  by (simp add: ledger_defs fx_defs fun_eq_iff)

text \<open>
  Claim C3 (editing the amount from A to B changes the balance by B - A) does not hold of
  the code: the update route increments the balance by the difference and then saves the
  transaction, whose post-save hook applies the whole new amount once more. An income of
  10 on balance 100 gives 110; editing the amount to 20 gives 140, a change of 30. The
  route then fails to serialise the populated account and answers 500, with the edited
  entry and the balance 140 stored.
\<close>

theorem route_put_applies_new_amount_again:
  "db_accounts (snd (transaction_save 7 (fx_txn Income 10 None) (fx_db Checking 100 0))) 1
     = Some (fx_account Checking 110) \<and>
   route_put 1 7 (fx_body 20) (snd (transaction_save 7 (fx_txn Income 10 None) (fx_db Checking 100 0)))
     = (ServerError500,
        \<lparr>db_accounts = [1 \<mapsto> fx_account Checking 140, 2 \<mapsto> fx_account Checking 0],
         db_transactions = [7 \<mapsto> fx_txn Income 20 None]\<rparr>)"
  by (simp add: ledger_defs fx_defs fun_eq_iff)

text \<open>The method \<open>updateBalance\<close> guards the balance: on an account that is not a credit
  account, an addition or subtraction that would make the balance negative fails with
  "Solde insuffisant" before anything is written, and whatever \<open>updateBalance\<close> writes
  has a balance of at least 0.\<close>

lemma updateBalance_guard:
  assumes "acc_type this \<noteq> Credit"
  shows "(acc_balance this + amount < 0 \<longrightarrow>
            updateBalance i this amount ''add'' db = Inl SoldeInsuffisant) \<and>
         (acc_balance this - amount < 0 \<longrightarrow>
            updateBalance i this amount ''subtract'' db = Inl SoldeInsuffisant) \<and>
         (\<forall>db'. updateBalance i this amount operation db = Inr db' \<longrightarrow>
            (\<exists>a. db' i = Some a \<and> 0 \<le> acc_balance a))"
  using assms
  by (auto simp add: updateBalance_def account_save_def account_validate_def
        account_pre_save_def Let_def split: if_splits)

text \<open>
  Claim C4 (a balance mutation that would make a non-credit balance negative is rejected,
  and no committed balance of such an account is negative) does not hold of the code: the
  update route changes balances with \<open>$inc\<close>, which runs neither the guard of
  \<open>updateBalance\<close> nor the validator of the schema. A checking account with balance 0
  receives an income of 50 and an expense of 40, balance 10; the income is edited to 10.
  The increment by -40 is committed, the later save of the account by the post-save hook
  is rejected and caught, the entry is stored with its new amount, and the stored balance
  is -30. The answer of the route is 500, but for the failure to serialise the populated
  account, after the writes: nothing is undone.
\<close>

theorem route_put_drives_balance_negative:
  "db_accounts (snd (transaction_save 8 (fx_txn Expense 40 None)
       (snd (transaction_save 7 (fx_txn Income 50 None) (fx_db Checking 0 0))))) 1
     = Some (fx_account Checking 10) \<and>
   route_put 1 7 (fx_body 10)
     (snd (transaction_save 8 (fx_txn Expense 40 None)
       (snd (transaction_save 7 (fx_txn Income 50 None) (fx_db Checking 0 0)))))
     = (ServerError500,
        \<lparr>db_accounts = [1 \<mapsto> fx_account Checking (- 30), 2 \<mapsto> fx_account Checking 0],
         db_transactions = [7 \<mapsto> fx_txn Income 10 None, 8 \<mapsto> fx_txn Expense 40 None]\<rparr>)"
  by (simp add: ledger_defs fx_defs fun_eq_iff)




section \<open>Budgets\<close>






subsection \<open>The percentage in binary64\<close>

lemma bitlen_bounds_rat:
  assumes "0 < n"
  shows "(2::rat) powi (bitlen n - 1) \<le> of_int n" and "of_int n < (2::rat) powi (bitlen n)"
proof -
  from assms have b: "1 \<le> bitlen n"
    by (simp add: bitlen_alt_def)
  from bitlen_bounds [OF assms]
  have lo: "2 ^ nat (bitlen n - 1) \<le> n" and hi: "n < 2 ^ nat (bitlen n)"
    by simp_all
  have "(of_int (2 ^ nat (bitlen n - 1)) :: rat) \<le> of_int n"
    using lo by (simp only: of_int_le_iff)
  then show "(2::rat) powi (bitlen n - 1) \<le> of_int n"
    using b by (simp add: power_int_def)
  have "(of_int n :: rat) < of_int (2 ^ nat (bitlen n))"
    using hi by (simp only: of_int_less_iff)
  then show "of_int n < (2::rat) powi (bitlen n)"
    using b by (simp add: power_int_def)
qed

lemma ilog2_bounds:
  assumes "0 < x"
  shows "2 powi (ilog2 x) \<le> x \<and> x < 2 powi (ilog2 x + 1)"
proof -
  define l where "l = (if 1 \<le> x then bitlen \<lfloor>x\<rfloor> - 1 else - bitlen \<lfloor>1 / x\<rfloor>)"
  have between: "2 powi l \<le> x \<and> x \<le> 2 powi (l + 1)"
  proof (cases "1 \<le> x")
    case True
    then have n: "0 < \<lfloor>x\<rfloor>"
      by simp
    have l: "l = bitlen \<lfloor>x\<rfloor> - 1"
      using True by (simp add: l_def)
    have "(2::rat) powi l \<le> of_int \<lfloor>x\<rfloor>"
      using bitlen_bounds_rat(1) [OF n] by (simp add: l)
    also have "\<dots> \<le> x"
      by simp
    finally have lo: "2 powi l \<le> x" .
    have "x < of_int \<lfloor>x\<rfloor> + 1"
      by linarith
    also have "\<dots> \<le> 2 powi (l + 1)"
    proof -
      have "\<lfloor>x\<rfloor> < 2 ^ nat (bitlen \<lfloor>x\<rfloor>)"
        using bitlen_bounds [OF n] by simp
      then have "\<lfloor>x\<rfloor> + 1 \<le> 2 ^ nat (bitlen \<lfloor>x\<rfloor>)"
        by simp
      then have "(of_int (\<lfloor>x\<rfloor> + 1) :: rat) \<le> of_int (2 ^ nat (bitlen \<lfloor>x\<rfloor>))"
        by (simp only: of_int_le_iff)
      moreover have "0 \<le> bitlen \<lfloor>x\<rfloor>"
        by (rule bitlen_nonneg)
      ultimately show ?thesis
        by (simp add: l power_int_def)
    qed
    finally show ?thesis
      using lo by simp
  next
    case False
    with assms have y: "1 < 1 / x"
      by simp
    then have n: "0 < \<lfloor>1 / x\<rfloor>"
      by linarith
    have l: "l = - bitlen \<lfloor>1 / x\<rfloor>"
      using False by (simp add: l_def)
    have "1 / x < of_int \<lfloor>1 / x\<rfloor> + 1"
      by linarith
    also have "\<dots> \<le> 2 powi (bitlen \<lfloor>1 / x\<rfloor>)"
    proof -
      have "\<lfloor>1 / x\<rfloor> < 2 ^ nat (bitlen \<lfloor>1 / x\<rfloor>)"
        using bitlen_bounds [OF n] by simp
      then have "\<lfloor>1 / x\<rfloor> + 1 \<le> 2 ^ nat (bitlen \<lfloor>1 / x\<rfloor>)"
        by simp
      then have "(of_int (\<lfloor>1 / x\<rfloor> + 1) :: rat) \<le> of_int (2 ^ nat (bitlen \<lfloor>1 / x\<rfloor>))"
        by (simp only: of_int_le_iff)
      moreover have "0 \<le> bitlen \<lfloor>1 / x\<rfloor>"
        by (rule bitlen_nonneg)
      ultimately show ?thesis
        by (simp add: power_int_def)
    qed
    finally have "1 / x < 2 powi (bitlen \<lfloor>1 / x\<rfloor>)" .
    then have "1 / 2 powi (bitlen \<lfloor>1 / x\<rfloor>) < x"
      using assms by (simp add: field_simps)
    then have lo: "2 powi l < x"
      by (simp add: l power_int_minus inverse_eq_divide)
    have "(2::rat) powi (bitlen \<lfloor>1 / x\<rfloor> - 1) \<le> of_int \<lfloor>1 / x\<rfloor>"
      by (rule bitlen_bounds_rat(1) [OF n])
    also have "\<dots> \<le> 1 / x"
      by simp
    finally have "2 powi (bitlen \<lfloor>1 / x\<rfloor> - 1) \<le> 1 / x" .
    then have "x \<le> 1 / 2 powi (bitlen \<lfloor>1 / x\<rfloor> - 1)"
      using assms by (simp add: field_simps)
    also have "\<dots> = 2 powi (l + 1)"
    proof -
      have "l + 1 = - (bitlen \<lfloor>1 / x\<rfloor> - 1)"
        by (simp add: l)
      then have "(2::rat) powi (l + 1) = inverse (2 powi (bitlen \<lfloor>1 / x\<rfloor> - 1))"
        by (simp only: power_int_minus)
      then show ?thesis
        by (simp add: inverse_eq_divide)
    qed
    finally show ?thesis
      using lo by simp
  qed
  have i: "ilog2 x = (if 2 powi (l + 1) \<le> x then l + 1 else l)"
    by (simp add: ilog2_def l_def Let_def)
  show ?thesis
  proof (cases "2 powi (l + 1) \<le> x")
    case True
    then have e: "ilog2 x = l + 1"
      by (simp only: i if_True)
    from True between have "x = 2 powi (l + 1)"
      by simp
    moreover have "(2::rat) powi (l + 1) < 2 powi (l + 1 + 1)"
      by (rule power_int_strict_increasing) simp_all
    ultimately have "x < 2 powi (l + 1 + 1)"
      by (simp only:)
    with True show ?thesis
      by (simp only: e simp_thms)
  next
    case False
    then have e: "ilog2 x = l"
      by (simp only: i if_False)
    from False between show ?thesis
      by (simp only: e) simp
  qed
qed

lemma round_half_even_bound: "\<bar>of_int (round_half_even r) - r\<bar> \<le> 1 / 2"
proof -
  have f: "of_int \<lfloor>r\<rfloor> \<le> r" "r < of_int \<lfloor>r\<rfloor> + 1"
    by linarith+
  consider "r - of_int \<lfloor>r\<rfloor> < 1 / 2" | "1 / 2 < r - of_int \<lfloor>r\<rfloor>"
    | "r - of_int \<lfloor>r\<rfloor> = 1 / 2"
    by linarith
  then show ?thesis
  proof cases
    case 1
    with f show ?thesis
      by (simp add: round_half_even_def Let_def)
  next
    case 2
    with f show ?thesis
      by (simp add: round_half_even_def Let_def)
  next
    case 3
    then show ?thesis
      by (simp add: round_half_even_def Let_def)
  qed
qed

lemma powi2_less_cancel: "(2::rat) powi a < 2 powi b \<Longrightarrow> a < b"
proof (rule ccontr)
  assume lt: "(2::rat) powi a < 2 powi b" and "\<not> a < b"
  then have "b \<le> a"
    by simp
  then have "(2::rat) powi b \<le> 2 powi a"
    by (rule power_int_increasing) simp
  with lt show False
    by simp
qed

lemma binary64_normal:
  assumes lo: "2 powi (- 1022) \<le> \<bar>x\<bar>" and hi: "\<bar>x\<bar> < 2 powi 1023"
  shows "\<exists>y. binary64 x = Finite y \<and> \<bar>y - x\<bar> \<le> \<bar>x\<bar> / 2 ^ 53"
proof -
  define ax :: rat where "ax = \<bar>x\<bar>"
  have pos: "0 < ax"
  proof -
    have "(0::rat) < 2 powi (- 1022)"
      by (rule zero_less_power_int) simp
    with lo show ?thesis
      by (simp add: ax_def)
  qed
  then have x0: "x \<noteq> 0"
    by (auto simp add: ax_def)
  define L where "L = ilog2 ax"
  have b: "2 powi L \<le> ax" "ax < 2 powi (L + 1)"
    using ilog2_bounds [OF pos] by (simp_all add: L_def)
  have "(2::rat) powi (- 1022) < 2 powi (L + 1)"
    using lo b(2) by (simp add: ax_def)
  then have L1: "- 1022 \<le> L"
    using powi2_less_cancel [of "- 1022" "L + 1"] by simp
  have "(2::rat) powi L < 2 powi 1023"
    using hi b(1) by (simp add: ax_def)
  then have L2: "L \<le> 1022"
    using powi2_less_cancel [of L 1023] by simp
  define e where "e = L - 52"
  have e: "max (ilog2 \<bar>x\<bar> - 52) (- 1074) = e"
    using L1 by (simp add: e_def L_def ax_def)
  have pe: "(0::rat) < 2 powi e"
    by (rule zero_less_power_int) simp
  have pL: "(2::rat) powi L = 2 powi e * 2 ^ 52"
  proof -
    have "L = e + 52"
      by (simp add: e_def)
    then have "(2::rat) powi L = 2 powi e * 2 powi 52"
      by (simp only: power_int_add) (simp add: power_int_add)
    then show ?thesis
      by simp
  qed
  define m where "m = round_half_even (ax / 2 powi e)"
  define y :: rat where "y = of_int m * 2 powi e"
  have "\<bar>of_int m - ax / 2 powi e\<bar> \<le> 1 / 2"
    unfolding m_def by (rule round_half_even_bound)
  then have "\<bar>of_int m - ax / 2 powi e\<bar> * 2 powi e \<le> (1 / 2) * 2 powi e"
    using pe by (simp only: mult_le_cancel_right_pos)
  moreover have "\<bar>of_int m - ax / 2 powi e\<bar> * 2 powi e = \<bar>y - ax\<bar>"
  proof -
    have "\<bar>of_int m - ax / 2 powi e\<bar> * 2 powi e = \<bar>(of_int m - ax / 2 powi e) * 2 powi e\<bar>"
      using pe by (simp add: abs_mult)
    also have "(of_int m - ax / 2 powi e) * 2 powi e = y - ax"
      using pe by (simp add: y_def field_simps)
    finally show ?thesis .
  qed
  ultimately have d: "\<bar>y - ax\<bar> \<le> 2 powi e / 2"
    by simp
  have "2 powi e * 2 ^ 52 \<le> ax"
    using b(1) by (simp add: pL)
  then have pe2: "2 powi e \<le> ax / 2 ^ 52"
    by (simp add: field_simps)
  from d pe2 have err: "\<bar>y - ax\<bar> \<le> ax / 2 ^ 53"
    by simp
  have "y \<le> ax + ax / 2 ^ 53"
    using err by linarith
  also have "\<dots> < 2 powi 1023 + 2 powi 1023 / 2 ^ 53"
    using hi by (simp add: ax_def field_simps)
  also have "\<dots> \<le> 2 powi 1024"
    by simp
  finally have no: "\<not> 2 powi 1024 \<le> y"
    by simp
  have val: "binary64 x = Finite (if 0 < x then y else - y)"
    using x0 no
    by (simp add: binary64_def Let_def e y_def m_def ax_def)
  have "\<bar>(if 0 < x then y else - y) - x\<bar> = \<bar>y - ax\<bar>"
    using x0 by (auto simp add: ax_def)
  with err val show ?thesis
    by (auto simp add: ax_def)
qed

lemma ilog2_unique:
  assumes "0 < x" and "2 powi L \<le> x" and "x < 2 powi (L + 1)"
  shows "ilog2 x = L"
proof -
  from ilog2_bounds [OF assms(1)]
  have b: "2 powi (ilog2 x) \<le> x" "x < 2 powi (ilog2 x + 1)"
    by simp_all
  have "(2::rat) powi (ilog2 x) < 2 powi (L + 1)"
    using b(1) assms(3) by simp
  then have "ilog2 x < L + 1"
    by (rule powi2_less_cancel)
  moreover have "(2::rat) powi L < 2 powi (ilog2 x + 1)"
    using b(2) assms(2) by simp
  then have "L < ilog2 x + 1"
    by (rule powi2_less_cancel)
  ultimately show ?thesis
    by simp
qed

lemma round_half_even_eq:
  assumes "of_int m - 1 / 2 < r" and "r < of_int m + 1 / 2"
  shows "round_half_even r = m"
proof -
  have "\<lfloor>r\<rfloor> = m \<or> \<lfloor>r\<rfloor> = m - 1"
    using assms by linarith
  then show ?thesis
  proof
    assume f: "\<lfloor>r\<rfloor> = m"
    with assms show ?thesis
      by (simp add: round_half_even_def Let_def)
  next
    assume f: "\<lfloor>r\<rfloor> = m - 1"
    with assms show ?thesis
      by (simp add: round_half_even_def Let_def)
  qed
qed

lemma binary64_eval:
  assumes "0 < x" and "2 powi (e + 52) \<le> x" and "x < 2 powi (e + 53)" and "- 1074 \<le> e"
    and "of_int m - 1 / 2 < x / 2 powi e" and "x / 2 powi e < of_int m + 1 / 2"
    and "y = of_int m * 2 powi e" and "y < 2 powi 1024"
  shows "binary64 x = Finite y"
proof -
  have "x < 2 powi (e + 52 + 1)"
    using assms(3) by (simp add: add.commute add.left_commute)
  then have "ilog2 x = e + 52"
    using assms(1,2) by (intro ilog2_unique) simp_all
  then have e: "max (ilog2 x - 52) (- 1074) = e"
    using assms(4) by simp
  have m: "round_half_even (x / 2 powi e) = m"
    using assms(5,6) by (intro round_half_even_eq) simp_all
  have a: "\<bar>x\<bar> = x" and n: "x \<noteq> 0"
    using assms(1) by simp_all
  have "\<not> 2 powi 1024 \<le> y"
    using assms(8) by simp
  then show ?thesis
    unfolding binary64_def Let_def a e m assms(7) [symmetric]
    using assms(1) n by simp
qed

lemma arith_lower:
  fixes A d w c :: rat
  assumes "c \<le> A" and "0 < c" and "d \<le> A * 100 / 2 ^ 53" and "A * 100 - d \<le> w"
  shows "c \<le> w"
proof -
  have "A * 100 / 2 ^ 53 \<le> A"
    using assms(1,2) by simp
  with assms show ?thesis
    by linarith
qed

lemma arith_upper:
  fixes A d w C :: rat
  assumes "A * 100 \<le> C" and "0 < C" and "0 \<le> A" and "d \<le> A * 100 / 2 ^ 53" and "w \<le> A * 100 + d"
  shows "w < 2 * C"
proof -
  have "A * 100 / 2 ^ 53 \<le> C / 2 ^ 53"
    using assms(1) by (simp add: divide_right_mono)
  moreover have "C / 2 ^ 53 < C"
    using assms(2) by simp
  ultimately show ?thesis
    using assms by linarith
qed

lemma arith_total:
  fixes A d1 d2 w :: rat
  assumes "0 \<le> A" and "d1 \<le> A * 100 / 2 ^ 53" and "w \<le> A * 100 + d1" and "d2 \<le> w / 2 ^ 53"
  shows "d1 + d2 \<le> A * 100 / 2 ^ 51"
proof -
  have "w / 2 ^ 53 \<le> (A * 100 + d1) / 2 ^ 53"
    using assms(3) by (simp add: divide_right_mono)
  also have "\<dots> \<le> (A * 100 + A * 100 / 2 ^ 53) / 2 ^ 53"
    using assms(2) by (simp add: divide_right_mono)
  finally have "d2 \<le> (A * 100 + A * 100 / 2 ^ 53) / 2 ^ 53"
    using assms(4) by simp
  moreover have "(A * 100 + A * 100 / 2 ^ 53) / 2 ^ 53 \<le> 2 * (A * 100) / 2 ^ 53"
    using assms(1) by (simp add: divide_right_mono)
  moreover have "A * 100 / 2 ^ 53 + 2 * (A * 100) / 2 ^ 53 \<le> A * 100 / 2 ^ 51"
    using assms(1) by simp
  ultimately show ?thesis
    using assms(2) by linarith
qed

lemma percentage_error:
  assumes lo: "2 powi (- 1022) \<le> \<bar>q0\<bar>" and hi: "\<bar>q0 * 100\<bar> \<le> 2 powi 1022"
    and q0: "q0 = s / a"
  shows "\<exists>v. js_multiply (js_divide s a) 100 = Finite v \<and>
             \<bar>v - q0 * 100\<bar> \<le> \<bar>q0 * 100\<bar> / 2 ^ 51"
proof -
  define c :: rat where "c = 2 powi (- 1022)"
  define C :: rat where "C = 2 powi 1022"
  define A :: rat where "A = \<bar>q0\<bar>"
  have c: "0 < c"
    unfolding c_def by (rule zero_less_power_int) simp
  have C: "0 < C"
    unfolding C_def by (rule zero_less_power_int) simp
  have C2: "2 powi 1023 = 2 * C"
    by (simp add: C_def)
  have A: "0 \<le> A" and lo': "c \<le> A"
    using lo by (simp_all add: A_def c_def)
  have q: "\<bar>q0 * 100\<bar> = A * 100"
    by (simp add: abs_mult A_def)
  have hi': "A * 100 \<le> C"
    using hi by (simp only: q C_def)
  have h1: "\<bar>q0\<bar> < 2 powi 1023"
    unfolding C2 A_def [symmetric] using hi' A C by linarith
  from binary64_normal [OF lo h1]
  obtain y where y: "binary64 q0 = Finite y" and ey: "\<bar>y - q0\<bar> \<le> A / 2 ^ 53"
    unfolding A_def by blast
  define d1 where "d1 = \<bar>y * 100 - q0 * 100\<bar>"
  define w where "w = \<bar>y * 100\<bar>"
  have eq: "y * 100 - q0 * 100 = (y - q0) * 100"
    by (simp add: algebra_simps)
  have "d1 = \<bar>(y - q0) * 100\<bar>"
    unfolding d1_def eq ..
  also have "\<dots> = \<bar>y - q0\<bar> * \<bar>100\<bar>"
    by (rule abs_mult)
  finally have "d1 = \<bar>y - q0\<bar> * 100"
    by simp
  with ey have d1: "d1 \<le> A * 100 / 2 ^ 53"
    by simp
  have tri1: "A * 100 - d1 \<le> w" and tri2: "w \<le> A * 100 + d1"
    unfolding q [symmetric] d1_def w_def by linarith+
  have wl: "2 powi (- 1022) \<le> \<bar>y * 100\<bar>"
    unfolding c_def [symmetric] w_def [symmetric]
    by (rule arith_lower [OF lo' c d1 tri1])
  have wh: "\<bar>y * 100\<bar> < 2 powi 1023"
    unfolding C2 w_def [symmetric]
    by (rule arith_upper [OF hi' C A d1 tri2])
  from binary64_normal [OF wl wh]
  obtain v where v: "binary64 (y * 100) = Finite v"
    and ev: "\<bar>v - y * 100\<bar> \<le> w / 2 ^ 53"
    unfolding w_def by blast
  have "\<bar>v - q0 * 100\<bar> \<le> d1 + \<bar>v - y * 100\<bar>"
    unfolding d1_def by linarith
  also have "\<dots> \<le> A * 100 / 2 ^ 51"
    by (rule arith_total [OF A d1 tri2 ev])
  finally have "\<bar>v - q0 * 100\<bar> \<le> \<bar>q0 * 100\<bar> / 2 ^ 51"
    by (simp only: q)
  moreover have "js_multiply (js_divide s a) 100 = Finite v"
    using v y by (simp add: js_multiply_def js_divide_def q0)
  ultimately show ?thesis
    by blast
qed

lemma Math_round_Finite:
  "\<exists>p. Math_round (Finite v) = Finite (of_int p) \<and> v - 1 / 2 < of_int p \<and> of_int p \<le> v + 1 / 2"
proof -
  have "v - 1 / 2 < of_int \<lfloor>v + 1 / 2\<rfloor> \<and> of_int \<lfloor>v + 1 / 2\<rfloor> \<le> v + 1 / 2"
    by linarith
  then show ?thesis
    by (auto simp add: Math_round_def)
qed

lemma binary64_zero: "binary64 0 = Finite 0"
  by (simp add: binary64_def)

lemma percentage_29_200:
  "js_multiply (js_divide 29 200) 100 = Finite (8162774324609023 / 2 ^ 49)"
proof -
  have 1: "binary64 (29 / 200) = Finite (5224175567749775 / 2 ^ 55)"
    by (rule binary64_eval [where m = 5224175567749775 and e = "- 55"]) simp_all
  have 2: "binary64 (5224175567749775 / 2 ^ 55 * 100) = Finite (8162774324609023 / 2 ^ 49)"
    by (rule binary64_eval [where m = 8162774324609023 and e = "- 49"]) simp_all
  show ?thesis
    unfolding js_divide_def js_multiply_def 1 number.case 2 ..
qed

lemma percentage_1_3:
  "js_multiply (js_divide 1 3) 100 = Finite (4691249611844266 / 2 ^ 47)"
proof -
  have 1: "binary64 (1 / 3) = Finite (6004799503160661 / 2 ^ 54)"
    by (rule binary64_eval [where m = 6004799503160661 and e = "- 54"]) simp_all
  have 2: "binary64 (6004799503160661 / 2 ^ 54 * 100) = Finite (4691249611844266 / 2 ^ 47)"
    by (rule binary64_eval [where m = 4691249611844266 and e = "- 47"]) simp_all
  show ?thesis
    unfolding js_divide_def js_multiply_def 1 number.case 2 ..
qed

text \<open>
  Claim C7, as amended. For a budget with a target amount above 0, \<open>percentageUsed\<close> is
  \<open>Math.round\<close> of the binary64 value of (spent / amount) * 100: when that computed value
  is finite it is the integer nearest to it, a tie going up. It is 0 when spent is 0.
  While the quotient spent / amount is in the normal range of binary64 and the percentage
  is at most \<open>2 powi 1022\<close>, this integer differs from the exact spent / amount * 100 by at
  most one half plus the exact value divided by \<open>2 ^ 51\<close>; so an exact value that lies on
  or next to a tie can be rounded the other way. For a target amount of 0 or below
  \<open>percentageUsed\<close> is 0.
\<close>

theorem percentageUsed_is_rounded:
  "(bg_amount this \<le> 0 \<longrightarrow> percentageUsed this = Finite 0) \<and>
   (0 < bg_amount this \<and> bg_spent this = 0 \<longrightarrow> percentageUsed this = Finite 0) \<and>
   (0 < bg_amount this \<and>
    js_multiply (js_divide (bg_spent this) (bg_amount this)) 100 = Finite v \<longrightarrow>
      (\<exists>p. percentageUsed this = Finite (of_int p) \<and>
           v - 1 / 2 < of_int p \<and> of_int p \<le> v + 1 / 2)) \<and>
   (0 < bg_amount this \<and> 2 powi (- 1022) \<le> \<bar>bg_spent this / bg_amount this\<bar> \<and>
    \<bar>bg_spent this / bg_amount this * 100\<bar> \<le> 2 powi 1022 \<longrightarrow>
      (\<exists>p. percentageUsed this = Finite (of_int p) \<and>
           \<bar>of_int p - bg_spent this / bg_amount this * 100\<bar>
             \<le> 1 / 2 + \<bar>bg_spent this / bg_amount this * 100\<bar> / 2 ^ 51))"
proof (intro conjI impI)
  assume "bg_amount this \<le> 0"
  then show "percentageUsed this = Finite 0"
    by (simp add: percentageUsed_def)
next
  assume "0 < bg_amount this \<and> bg_spent this = 0"
  then show "percentageUsed this = Finite 0"
    by (simp add: percentageUsed_def js_divide_def js_multiply_def binary64_zero Math_round_def
          floor_eq_iff)
next
  assume h: "0 < bg_amount this \<and>
    js_multiply (js_divide (bg_spent this) (bg_amount this)) 100 = Finite v"
  with Math_round_Finite [of v]
  show "\<exists>p. percentageUsed this = Finite (of_int p) \<and>
           v - 1 / 2 < of_int p \<and> of_int p \<le> v + 1 / 2"
    by (simp add: percentageUsed_def)
next
  assume h: "0 < bg_amount this \<and> 2 powi (- 1022) \<le> \<bar>bg_spent this / bg_amount this\<bar> \<and>
    \<bar>bg_spent this / bg_amount this * 100\<bar> \<le> 2 powi 1022"
  then obtain v where v: "js_multiply (js_divide (bg_spent this) (bg_amount this)) 100 = Finite v"
    and e: "\<bar>v - bg_spent this / bg_amount this * 100\<bar>
              \<le> \<bar>bg_spent this / bg_amount this * 100\<bar> / 2 ^ 51"
    using percentage_error [of "bg_spent this / bg_amount this" "bg_spent this" "bg_amount this"]
    by blast
  from Math_round_Finite [of v]
  obtain p where p: "Math_round (Finite v) = Finite (of_int p)"
    and r: "v - 1 / 2 < of_int p" "of_int p \<le> v + 1 / 2"
    by blast
  have "percentageUsed this = Finite (of_int p)"
    using h v p by (simp add: percentageUsed_def)
  moreover have "\<bar>of_int p - bg_spent this / bg_amount this * 100\<bar>
             \<le> 1 / 2 + \<bar>bg_spent this / bg_amount this * 100\<bar> / 2 ^ 51"
    using e r by linarith
  ultimately show "\<exists>p. percentageUsed this = Finite (of_int p) \<and>
           \<bar>of_int p - bg_spent this / bg_amount this * 100\<bar>
             \<le> 1 / 2 + \<bar>bg_spent this / bg_amount this * 100\<bar> / 2 ^ 51"
    by blast
qed

text \<open>With 29 spent of a target of 200 the exact percentage is 14.5; the computed value is
  8162774324609023 / 2 ^ 49, just below 14.5, and \<open>percentageUsed\<close> is 14, within the
  bound. A target of 0 and a spent of 0 give 0.\<close>

theorem percentageUsed_is_rounded_witness:
  "percentageUsed (fx_budget 0 1) = Finite 0 \<and>
   percentageUsed (fx_budget 200 0) = Finite 0 \<and>
   percentageUsed (fx_budget 200 29) = Finite 14 \<and>
   \<bar>14 - (29 / 200 * 100 :: rat)\<bar> \<le> 1 / 2 + \<bar>29 / 200 * 100 :: rat\<bar> / 2 ^ 51"
proof -
  have a: "percentageUsed (fx_budget 0 1) = Finite 0"
    using percentageUsed_is_rounded [where this = "fx_budget 0 1", THEN conjunct1]
    by (simp add: fx_budget_def)
  have b: "percentageUsed (fx_budget 200 0) = Finite 0"
    using percentageUsed_is_rounded [where this = "fx_budget 200 0", THEN conjunct2, THEN conjunct1]
    by (simp add: fx_budget_def)
  have v: "js_multiply (js_divide (bg_spent (fx_budget 200 29)) (bg_amount (fx_budget 200 29))) 100
             = Finite (8162774324609023 / 2 ^ 49)"
    by (simp add: fx_budget_def percentage_29_200)
  from percentageUsed_is_rounded
         [where this = "fx_budget 200 29" and v = "8162774324609023 / 2 ^ 49",
          THEN conjunct2, THEN conjunct2, THEN conjunct1] v
  obtain p :: int where p: "percentageUsed (fx_budget 200 29) = Finite (of_int p)"
    and r: "8162774324609023 / 2 ^ 49 - 1 / 2 < (of_int p :: rat)"
      "(of_int p :: rat) \<le> 8162774324609023 / 2 ^ 49 + 1 / 2"
    by (auto simp add: fx_budget_def)
  have "(13 :: rat) < of_int p" and "(of_int p :: rat) < 15"
    using r by simp_all
  then have "13 < p" and "p < 15"
    by simp_all
  then have "p = 14"
    by simp
  with p have c: "percentageUsed (fx_budget 200 29) = Finite 14"
    by simp
  from percentageUsed_is_rounded
         [where this = "fx_budget 200 29", THEN conjunct2, THEN conjunct2, THEN conjunct2]
  obtain p' :: int where "percentageUsed (fx_budget 200 29) = Finite (of_int p')"
    and e: "\<bar>of_int p' - (29 / 200 * 100 :: rat)\<bar> \<le> 1 / 2 + \<bar>29 / 200 * 100 :: rat\<bar> / 2 ^ 51"
    by (auto simp add: fx_budget_def)
  with c have "(of_int p' :: rat) = 14"
    by simp
  with e have d: "\<bar>14 - (29 / 200 * 100 :: rat)\<bar> \<le> 1 / 2 + \<bar>29 / 200 * 100 :: rat\<bar> / 2 ^ 51"
    by simp
  from a b c d show ?thesis
    by blast
qed

text \<open>Claim C7 as stated fails: with 1 spent of a target of 3 the quotient times 100 is
  100/3 and \<open>percentageUsed\<close> is 33.\<close>

theorem percentageUsed_not_exact_counterexample:
  "percentageUsed (fx_budget 3 1) = Finite 33 \<and>
   bg_spent (fx_budget 3 1) / bg_amount (fx_budget 3 1) * 100 \<noteq> 33"
proof -
  have "percentageUsed (fx_budget 3 1) = Finite 33"
    by (simp add: percentageUsed_def fx_budget_def percentage_1_3 Math_round_def floor_eq_iff)
  then show ?thesis
    by (simp add: fx_budget_def)
qed

section \<open>Goals\<close>

lemmas fx_goal_defs =
  fx_goal_def fx_goal_saved_def fx_goals_def fx_clock_def fx_addMonth_def fx_calls_def

lemma map_of_write_goal:
  "map_of (write_goal i g db) j =
     (if j = i then map_option (\<lambda>_. g) (map_of db i) else map_of db j)"
  by (induction db) (auto simp add: write_goal_def)

lemma map_fst_write_goal: "map fst (write_goal i g db) = map fst db"
  by (induction db) (auto simp add: write_goal_def)

lemma write_goal_twice: "write_goal i a (write_goal i b db) = write_goal i a db"
  by (induction db) (auto simp add: write_goal_def)

lemma goal_save_cases:
  "goal_save now i g db =
     (if \<not> goal_validate g then (Inl ValidationError, db)
      else if g_targetDate g \<le> now then (Inl TargetDateNotInFuture, db)
      else (Inr (goal_pre_save_status g), write_goal i (goal_pre_save_status g) db))"
  by (simp add: goal_save_def goal_pre_save_targetDate_def Let_def)

lemma goal_validate_pre_save_status: "goal_validate (goal_pre_save_status g) = goal_validate g"
  by (simp add: goal_validate_def goal_pre_save_status_def)

lemma goal_validate_nextDate:
  "goal_validate (g\<lparr>g_autoSave := (g_autoSave g)\<lparr>as_nextDate := d\<rparr>\<rparr>) = goal_validate g"
  by (simp add: goal_validate_def)

lemma goal_pre_save_status_nextDate:
  "goal_pre_save_status ((goal_pre_save_status g)\<lparr>g_autoSave := a\<rparr>) = (goal_pre_save_status g)\<lparr>g_autoSave := a\<rparr>"
  by (simp add: goal_pre_save_status_def)

lemma targetDate_pre_save_status: "g_targetDate (goal_pre_save_status g) = g_targetDate g"
  by (simp add: goal_pre_save_status_def)

lemma autoSave_pre_save_status: "g_autoSave (goal_pre_save_status g) = g_autoSave g"
  by (simp add: goal_pre_save_status_def)

lemma targetDate_contribute: "g_targetDate (contribute now a n s g) = g_targetDate g"
  by (simp add: contribute_def Let_def)

lemma autoSave_contribute: "g_autoSave (contribute now a n s g) = g_autoSave g"
  by (simp add: contribute_def Let_def)

lemma calculateNextAutoSave_cong:
  "g_autoSave g' = g_autoSave g \<Longrightarrow> calculateNextAutoSave A now g' = calculateNextAutoSave A now g"
  by (simp add: calculateNextAutoSave_def)

lemma autoSave_goal_cases:
  "autoSave_goal A (t1, t2) i g db =
     (case as_amount (g_autoSave g) of
        None \<Rightarrow> db
      | Some amount \<Rightarrow>
          (if \<not> goal_validate (contribute t1 amount ''Epargne automatique'' Auto_save g) \<or>
              g_targetDate g \<le> t1
           then db
           else if g_targetDate g \<le> t2
           then write_goal i
                  (goal_pre_save_status (contribute t1 amount ''Epargne automatique'' Auto_save g)) db
           else write_goal i
                  ((goal_pre_save_status (contribute t1 amount ''Epargne automatique'' Auto_save g))
                     \<lparr>g_autoSave := (g_autoSave g)\<lparr>as_nextDate := calculateNextAutoSave A t2 g\<rparr>\<rparr>)
                  db))"
proof (cases "as_amount (g_autoSave g)")
  case None
  then show ?thesis
    by (simp add: autoSave_goal_def)
next
  case (Some amount)
  define g1 where "g1 = contribute t1 amount ''Epargne automatique'' Auto_save g"
  define g2 where "g2 = goal_pre_save_status g1"
  define g3 where
    "g3 = g2\<lparr>g_autoSave := (g_autoSave g2)\<lparr>as_nextDate := calculateNextAutoSave A t2 g2\<rparr>\<rparr>"
  have a2: "g_autoSave g2 = g_autoSave g"
    by (simp add: g2_def g1_def autoSave_pre_save_status autoSave_contribute)
  have t1: "g_targetDate g1 = g_targetDate g"
    by (simp add: g1_def targetDate_contribute)
  have t3: "g_targetDate g3 = g_targetDate g"
    by (simp add: g3_def g2_def targetDate_pre_save_status t1)
  have v3: "goal_validate g3 = goal_validate g1"
    by (simp add: g3_def goal_validate_nextDate g2_def goal_validate_pre_save_status)
  have s3: "goal_pre_save_status g3 = g3"
    by (simp add: g3_def g2_def goal_pre_save_status_nextDate)
  have e3: "g3 = g2\<lparr>g_autoSave := (g_autoSave g)\<lparr>as_nextDate := calculateNextAutoSave A t2 g\<rparr>\<rparr>"
    by (simp add: g3_def a2 calculateNextAutoSave_cong [OF a2])
  have first: "addContribution t1 i g amount ''Epargne automatique'' Auto_save db =
      (if \<not> goal_validate g1 then (Inl ValidationError, db)
       else if g_targetDate g \<le> t1 then (Inl TargetDateNotInFuture, db)
       else (Inr g2, write_goal i g2 db))"
    by (simp add: addContribution_def goal_save_cases g1_def [symmetric] g2_def t1)
  have second: "goal_save t2 i g3 db' =
      (if \<not> goal_validate g1 then (Inl ValidationError, db')
       else if g_targetDate g \<le> t2 then (Inl TargetDateNotInFuture, db')
       else (Inr g3, write_goal i g3 db'))" for db'
    by (simp add: goal_save_cases v3 t3 s3)
  have "autoSave_goal A (t1, t2) i g db =
     (if \<not> goal_validate g1 \<or> g_targetDate g \<le> t1 then db
      else if g_targetDate g \<le> t2 then write_goal i g2 db
      else write_goal i g3 db)"
    by (simp add: autoSave_goal_def Some first second g3_def [symmetric] write_goal_twice)
  then show ?thesis
    by (simp add: Some e3 g2_def g1_def)
qed

lemma autoSave_goal_frame:
  "j \<noteq> i \<Longrightarrow> map_of (autoSave_goal A c i g db) j = map_of db j"
  by (cases c) (simp add: autoSave_goal_cases map_of_write_goal split: option.splits)

lemma autoSave_goal_local:
  "map_of db2 i = map_of db i \<Longrightarrow>
     map_of (autoSave_goal A c i g db2) i = map_of (autoSave_goal A c i g db) i"
  by (cases c) (simp add: autoSave_goal_cases map_of_write_goal split: option.splits)

lemma autoSave_loop_map_of:
  "distinct (map fst found) \<Longrightarrow>
     map_of (autoSave_loop A clock found db) j =
       (case map_of found j of
          None \<Rightarrow> map_of db j
        | Some g \<Rightarrow> map_of (autoSave_goal A (clock j) j g db) j)"
proof (induction found arbitrary: db j)
  case Nil
  then show ?case by simp
next
  case (Cons p found)
  obtain i g where p: "p = (i, g)" by (cases p)
  from Cons.prems p have d: "distinct (map fst found)" and n: "map_of found i = None"
    by (simp_all add: map_of_eq_None_iff)
  show ?case
  proof (cases "j = i")
    case True
    with n show ?thesis
      by (simp add: p Cons.IH [OF d])
  next
    case False
    then show ?thesis
      by (simp add: p Cons.IH [OF d] autoSave_goal_frame
            autoSave_goal_local [OF autoSave_goal_frame] split: option.splits)
  qed
qed

lemma map_of_filter_distinct:
  "distinct (map fst db) \<Longrightarrow> map_of db i = Some g \<Longrightarrow>
     map_of (filter (\<lambda>(i, g). P g) db) i = (if P g then Some g else None)"
proof (induction db)
  case Nil
  then show ?case by simp
next
  case (Cons p db)
  then show ?case
    by (cases p) (auto simp add: map_of_eq_None_iff image_iff split: if_splits)
qed

lemma processAutoSaves_map_of:
  assumes "distinct (map fst db)" and "(i, g) \<in> set db"
  shows "map_of (fst (processAutoSaves A now clock db)) i =
           (if autoSave_due now g then map_of (autoSave_goal A (clock i) i g db) i else Some g)"
proof -
  from assms have m: "map_of db i = Some g" by simp
  have d: "distinct (map fst (filter (\<lambda>(i, g). autoSave_due now g) db))"
    using assms(1) by (simp add: distinct_map_filter)
  show ?thesis
    by (simp add: processAutoSaves_def Let_def autoSave_loop_map_of [OF d]
          map_of_filter_distinct [OF assms(1) m] m)
qed


lemma ms_amount_check_milestone: "ms_amount (check_milestone now cur m) = ms_amount m"
  by (simp add: check_milestone_def)

lemma goal_validate_contribute:
  "goal_validate g \<Longrightarrow> 1 / 100 \<le> amount \<Longrightarrow> goal_validate (contribute now amount n s g)"
  by (simp add: goal_validate_def contribute_def Let_def list_all_iff ms_amount_check_milestone)

lemma goal_invalid_contribute:
  "amount < 1 / 100 \<Longrightarrow> \<not> goal_validate (contribute now amount n s g)"
  by (simp add: goal_validate_def contribute_def Let_def)

lemma calculateNextAutoSave_due:
  "as_enabled (g_autoSave g) \<Longrightarrow> as_nextDate (g_autoSave g) = Some d \<Longrightarrow>
     calculateNextAutoSave A now g =
       Some (case as_frequency (g_autoSave g) of
               Daily \<Rightarrow> d + 86400000
             | Weekly \<Rightarrow> d + 604800000
             | Monthly \<Rightarrow> A d)"
  by (simp add: calculateNextAutoSave_def msPerDay_def split: frequency.splits)

lemma contributed_explicit:
  "g_status g = Goal_active \<Longrightarrow>
     goal_pre_save_status (contribute now amount n s g) =
       g\<lparr>g_contributions :=
            g_contributions g @
              [\<lparr>ct_amount = amount, ct_date = now, ct_note = n, ct_source = s\<rparr>],
         g_currentAmount := g_currentAmount g + amount,
         g_milestones := map (check_milestone now (g_currentAmount g + amount)) (g_milestones g),
         g_status := (if g_currentAmount g + amount \<ge> g_targetAmount g then Goal_completed
                      else Goal_active)\<rparr>"
  by (simp add: goal_pre_save_status_def contribute_def Let_def)

lemma autoSave_goal_at:
  assumes "map_of db i = Some g"
  shows "map_of (autoSave_goal A (t1, t2) i g db) i =
     (case as_amount (g_autoSave g) of
        None \<Rightarrow> Some g
      | Some amount \<Rightarrow>
          (if \<not> goal_validate (contribute t1 amount ''Epargne automatique'' Auto_save g) \<or>
              g_targetDate g \<le> t1
           then Some g
           else if g_targetDate g \<le> t2
           then Some (goal_pre_save_status (contribute t1 amount ''Epargne automatique'' Auto_save g))
           else Some ((goal_pre_save_status (contribute t1 amount ''Epargne automatique'' Auto_save g))
                     \<lparr>g_autoSave := (g_autoSave g)\<lparr>as_nextDate := calculateNextAutoSave A t2 g\<rparr>\<rparr>)))"
  using assms by (simp add: autoSave_goal_cases map_of_write_goal split: option.splits)

lemma sweep_at:
  assumes "distinct (map fst db)" and "(i, g) \<in> set db"
  shows "map_of (fst (processAutoSaves A now clock db)) i =
     (if \<not> autoSave_due now g then Some g
      else
        (case as_amount (g_autoSave g) of
           None \<Rightarrow> Some g
         | Some amount \<Rightarrow>
             (if \<not> goal_validate
                     (contribute (fst (clock i)) amount ''Epargne automatique'' Auto_save g) \<or>
                 g_targetDate g \<le> fst (clock i)
              then Some g
              else if g_targetDate g \<le> snd (clock i)
              then Some (goal_pre_save_status
                           (contribute (fst (clock i)) amount ''Epargne automatique'' Auto_save g))
              else Some ((goal_pre_save_status
                            (contribute (fst (clock i)) amount ''Epargne automatique'' Auto_save g))
                          \<lparr>g_autoSave :=
                             (g_autoSave g)
                               \<lparr>as_nextDate := calculateNextAutoSave A (snd (clock i)) g\<rparr>\<rparr>))))"
proof -
  from assms have m: "map_of db i = Some g"
    by simp
  show ?thesis
    using autoSave_goal_at [OF m, of A "fst (clock i)" "snd (clock i)"]
    by (simp add: processAutoSaves_map_of [OF assms])
qed

lemma autoSave_due_iff:
  "autoSave_due now g \<longleftrightarrow>
     as_enabled (g_autoSave g) \<and> g_status g = Goal_active \<and>
     (\<exists>d. as_nextDate (g_autoSave g) = Some d \<and> d \<le> now)"
  by (auto simp add: autoSave_due_def split: option.splits)









text \<open>
  Claim C10. Every save of a goal checks that the target date is after the clock reading
  of the save. So for a goal whose target date is not after the current time, \<open>save\<close>
  and \<open>addContribution\<close> fail (with the error of the schema validators if these reject
  the document first, with the error of the target-date hook otherwise) and leave the
  collection exactly as it was, whatever the amount; the body of the auto-save loop for
  such a goal leaves the collection as it was too.
\<close>

theorem save_rejects_past_targetDate:
  assumes "g_targetDate this \<le> now"
  shows "(goal_save now i this db = (Inl ValidationError, db) \<or>
          goal_save now i this db = (Inl TargetDateNotInFuture, db)) \<and>
         (addContribution now i this amount memo source db = (Inl ValidationError, db) \<or>
          addContribution now i this amount memo source db = (Inl TargetDateNotInFuture, db)) \<and>
         autoSave_goal addMonth (now, later) i this db = db"
proof -
  have t: "g_targetDate (contribute now a n s this) \<le> now" for a n s
    using assms by (simp add: contribute_def Let_def)
  have 1: "goal_save now i this db = (Inl ValidationError, db) \<or>
          goal_save now i this db = (Inl TargetDateNotInFuture, db)"
    using assms by (simp add: goal_save_cases)
  have 2: "addContribution now i this a n s db = (Inl ValidationError, db) \<or>
          addContribution now i this a n s db = (Inl TargetDateNotInFuture, db)" for a n s
    using t [of a n s] by (simp add: addContribution_def goal_save_cases)
  have 3: "autoSave_goal addMonth (now, later) i this db = db"
  proof (cases "as_amount (g_autoSave this)")
    case None
    then show ?thesis
      by (simp add: autoSave_goal_def)
  next
    case (Some a)
    with 2 [of a "''Epargne automatique''" Auto_save] show ?thesis
      by (auto simp add: autoSave_goal_def)
  qed
  from 1 2 3 show ?thesis
    by blast
qed

text \<open>A valid goal with target date 100 at time 100: a valid contribution of 40000 is
  rejected by the target-date hook and nothing is stored.\<close>

theorem save_rejects_past_targetDate_witness:
  "g_targetDate (fx_goal 450000 100 (Some 40000) 50) \<le> 100 \<and>
   addContribution 100 2 (fx_goal 450000 100 (Some 40000) 50) 40000 [] Manual fx_goals
     = (Inl TargetDateNotInFuture, fx_goals) \<and>
   autoSave_goal fx_addMonth (100, 101) 2 (fx_goal 450000 100 (Some 40000) 50) fx_goals = fx_goals"
proof -
  have h: "g_targetDate (fx_goal 450000 100 (Some 40000) 50) \<le> 100"
    by (simp add: fx_goal_def)
  note t = save_rejects_past_targetDate
             [OF h, where i = 2 and db = fx_goals and amount = 40000 and memo = "[]"
                and source = Manual and addMonth = fx_addMonth and later = 101]
  have v: "goal_validate (contribute 100 40000 [] Manual (fx_goal 450000 100 (Some 40000) 50))"
    by (simp add: goal_validate_def contribute_def check_milestone_def fx_goal_def Let_def)
  have "addContribution 100 2 (fx_goal 450000 100 (Some 40000) 50) 40000 [] Manual fx_goals
          \<noteq> (Inl ValidationError, fx_goals)"
    using v by (simp add: addContribution_def goal_save_cases)
  with t h show ?thesis
    by blast
qed

text \<open>
  Claim C9, as amended. \<open>processAutoSaves\<close> selects exactly the goals that are active, have
  auto-save enabled and a next date at or before \<open>now\<close>, and returns their number,
  whether their processing succeeds or fails. Every stored goal ends in a state that
  depends on this goal alone, so a failure on one goal does not stop or change the
  processing of the others:
  \<^item> a goal that is not selected is unchanged;
  \<^item> a selected goal whose contribution is rejected (no configured amount, an amount below
    0.01, or a target date not after the clock reading) is unchanged;
  \<^item> a selected valid goal whose contribution is saved and whose target date is reached
    before the second save keeps the contribution (appended with source auto-save and
    the configured amount, current amount increased, milestones checked, status
    completed when the target is reached) and its old next date;
  \<^item> a selected valid goal for which both saves are accepted holds the contribution and a
    next date moved by one day, seven days or one calendar month.
\<close>

theorem processAutoSaves_outcome:
  assumes "distinct (map fst db)"
  shows
    "snd (processAutoSaves A now clock db) = length (filter (\<lambda>(i, g). autoSave_due now g) db) \<and>
     ((i, g) \<in> set db \<longrightarrow>
        (autoSave_due now g \<longleftrightarrow>
           as_enabled (g_autoSave g) \<and> g_status g = Goal_active \<and>
           (\<exists>d. as_nextDate (g_autoSave g) = Some d \<and> d \<le> now)) \<and>
        (\<not> autoSave_due now g \<longrightarrow>
           map_of (fst (processAutoSaves A now clock db)) i = Some g) \<and>
        (autoSave_due now g \<and>
         (as_amount (g_autoSave g) = None \<or>
          (\<exists>a. as_amount (g_autoSave g) = Some a \<and> a < 1 / 100) \<or>
          g_targetDate g \<le> fst (clock i)) \<longrightarrow>
           map_of (fst (processAutoSaves A now clock db)) i = Some g) \<and>
        (autoSave_due now g \<and> goal_validate g \<and> as_amount (g_autoSave g) = Some amount \<and>
         1 / 100 \<le> amount \<and> fst (clock i) < g_targetDate g \<and> g_targetDate g \<le> snd (clock i) \<longrightarrow>
           map_of (fst (processAutoSaves A now clock db)) i =
             Some (g\<lparr>g_contributions :=
                       g_contributions g @
                         [\<lparr>ct_amount = amount, ct_date = fst (clock i),
                           ct_note = ''Epargne automatique'', ct_source = Auto_save\<rparr>],
                     g_currentAmount := g_currentAmount g + amount,
                     g_milestones :=
                       map (check_milestone (fst (clock i)) (g_currentAmount g + amount))
                         (g_milestones g),
                     g_status :=
                       (if g_currentAmount g + amount \<ge> g_targetAmount g then Goal_completed
                        else Goal_active)\<rparr>)) \<and>
        (autoSave_due now g \<and> goal_validate g \<and> as_amount (g_autoSave g) = Some amount \<and>
         1 / 100 \<le> amount \<and> as_nextDate (g_autoSave g) = Some d \<and>
         fst (clock i) < g_targetDate g \<and> snd (clock i) < g_targetDate g \<longrightarrow>
           map_of (fst (processAutoSaves A now clock db)) i =
             Some (g\<lparr>g_contributions :=
                       g_contributions g @
                         [\<lparr>ct_amount = amount, ct_date = fst (clock i),
                           ct_note = ''Epargne automatique'', ct_source = Auto_save\<rparr>],
                     g_currentAmount := g_currentAmount g + amount,
                     g_milestones :=
                       map (check_milestone (fst (clock i)) (g_currentAmount g + amount))
                         (g_milestones g),
                     g_status :=
                       (if g_currentAmount g + amount \<ge> g_targetAmount g then Goal_completed
                        else Goal_active),
                     g_autoSave :=
                       (g_autoSave g)
                         \<lparr>as_nextDate :=
                            Some (case as_frequency (g_autoSave g) of
                                    Daily \<Rightarrow> d + 86400000
                                  | Weekly \<Rightarrow> d + 604800000
                                  | Monthly \<Rightarrow> A d)\<rparr>\<rparr>)))"
proof (intro conjI impI)
  show "snd (processAutoSaves A now clock db) =
      length (filter (\<lambda>(i, g). autoSave_due now g) db)"
    by (simp add: processAutoSaves_def Let_def)
next
  show "autoSave_due now g \<longleftrightarrow>
         as_enabled (g_autoSave g) \<and> g_status g = Goal_active \<and>
         (\<exists>d. as_nextDate (g_autoSave g) = Some d \<and> d \<le> now)"
    by (rule autoSave_due_iff)
next
  assume mem: "(i, g) \<in> set db" and "\<not> autoSave_due now g"
  then show "map_of (fst (processAutoSaves A now clock db)) i = Some g"
    by (simp add: sweep_at [OF assms mem])
next
  assume mem: "(i, g) \<in> set db"
    and "autoSave_due now g \<and>
         (as_amount (g_autoSave g) = None \<or>
          (\<exists>a. as_amount (g_autoSave g) = Some a \<and> a < 1 / 100) \<or>
          g_targetDate g \<le> fst (clock i))"
  then show "map_of (fst (processAutoSaves A now clock db)) i = Some g"
    by (auto simp add: sweep_at [OF assms mem] goal_invalid_contribute split: option.splits)
next
  assume mem: "(i, g) \<in> set db"
    and h: "autoSave_due now g \<and> goal_validate g \<and> as_amount (g_autoSave g) = Some amount \<and>
           1 / 100 \<le> amount \<and> fst (clock i) < g_targetDate g \<and> g_targetDate g \<le> snd (clock i)"
  then have "g_status g = Goal_active"
    by (simp add: autoSave_due_iff)
  with h show "map_of (fst (processAutoSaves A now clock db)) i =
             Some (g\<lparr>g_contributions :=
                       g_contributions g @
                         [\<lparr>ct_amount = amount, ct_date = fst (clock i),
                           ct_note = ''Epargne automatique'', ct_source = Auto_save\<rparr>],
                     g_currentAmount := g_currentAmount g + amount,
                     g_milestones :=
                       map (check_milestone (fst (clock i)) (g_currentAmount g + amount))
                         (g_milestones g),
                     g_status :=
                       (if g_currentAmount g + amount \<ge> g_targetAmount g then Goal_completed
                        else Goal_active)\<rparr>)"
    by (simp add: sweep_at [OF assms mem] goal_validate_contribute contributed_explicit)
next
  assume mem: "(i, g) \<in> set db"
    and h: "autoSave_due now g \<and> goal_validate g \<and> as_amount (g_autoSave g) = Some amount \<and>
           1 / 100 \<le> amount \<and> as_nextDate (g_autoSave g) = Some d \<and>
           fst (clock i) < g_targetDate g \<and> snd (clock i) < g_targetDate g"
  then have "g_status g = Goal_active" and "as_enabled (g_autoSave g)"
    by (simp_all add: autoSave_due_iff)
  with h show "map_of (fst (processAutoSaves A now clock db)) i =
             Some (g\<lparr>g_contributions :=
                       g_contributions g @
                         [\<lparr>ct_amount = amount, ct_date = fst (clock i),
                           ct_note = ''Epargne automatique'', ct_source = Auto_save\<rparr>],
                     g_currentAmount := g_currentAmount g + amount,
                     g_milestones :=
                       map (check_milestone (fst (clock i)) (g_currentAmount g + amount))
                         (g_milestones g),
                     g_status :=
                       (if g_currentAmount g + amount \<ge> g_targetAmount g then Goal_completed
                        else Goal_active),
                     g_autoSave :=
                       (g_autoSave g)
                         \<lparr>as_nextDate :=
                            Some (case as_frequency (g_autoSave g) of
                                    Daily \<Rightarrow> d + 86400000
                                  | Weekly \<Rightarrow> d + 604800000
                                  | Monthly \<Rightarrow> A d)\<rparr>\<rparr>)"
    by (simp add: sweep_at [OF assms mem] goal_validate_contribute contributed_explicit
          calculateNextAutoSave_due)
qed

text \<open>Three goals at time 100: goal 1 is due and receives its contribution of 40000, its
  next date moves from 50 by seven days; goal 2 is due but its target date 100 is not in
  the future, it is unchanged; goal 3 is not due (next date 500), it is unchanged. The
  count is 2.\<close>

theorem processAutoSaves_outcome_witness:
  "snd (processAutoSaves fx_addMonth 100 fx_clock fx_goals) = 2 \<and>
   map_of (fst (processAutoSaves fx_addMonth 100 fx_clock fx_goals)) 1
     = Some (fx_goal_saved 450000 2000 40000 100 604800050) \<and>
   map_of (fst (processAutoSaves fx_addMonth 100 fx_clock fx_goals)) 2
     = Some (fx_goal 450000 100 (Some 40000) 50) \<and>
   map_of (fst (processAutoSaves fx_addMonth 100 fx_clock fx_goals)) 3
     = Some (fx_goal 450000 2000 (Some 40000) 500)"
proof -
  have d: "distinct (map fst fx_goals)"
    by (simp add: fx_goals_def)
  have c: "snd (processAutoSaves fx_addMonth 100 fx_clock fx_goals) = 2"
    using processAutoSaves_outcome
            [OF d, where A = fx_addMonth and now = 100 and clock = fx_clock, THEN conjunct1]
    by (simp add: fx_goal_defs autoSave_due_def)
  have g1: "map_of (fst (processAutoSaves fx_addMonth 100 fx_clock fx_goals)) 1
     = Some (fx_goal_saved 450000 2000 40000 100 604800050)"
    using processAutoSaves_outcome
            [OF d, where A = fx_addMonth and now = 100 and clock = fx_clock
               and i = 1 and g = "fx_goal 450000 2000 (Some 40000) 50" and amount = 40000 and d = 50, THEN conjunct2]
    by (simp add: fx_goal_defs autoSave_due_def goal_validate_def check_milestone_def)
  have g2: "map_of (fst (processAutoSaves fx_addMonth 100 fx_clock fx_goals)) 2
     = Some (fx_goal 450000 100 (Some 40000) 50)"
    using processAutoSaves_outcome
            [OF d, where A = fx_addMonth and now = 100 and clock = fx_clock
               and i = 2 and g = "fx_goal 450000 100 (Some 40000) 50" and amount = 40000 and d = 50, THEN conjunct2]
    by (simp add: fx_goal_defs autoSave_due_def goal_validate_def check_milestone_def)
  have g3: "map_of (fst (processAutoSaves fx_addMonth 100 fx_clock fx_goals)) 3
     = Some (fx_goal 450000 2000 (Some 40000) 500)"
    using processAutoSaves_outcome
            [OF d, where A = fx_addMonth and now = 100 and clock = fx_clock
               and i = 3 and g = "fx_goal 450000 2000 (Some 40000) 500" and amount = 40000 and d = 500, THEN conjunct2]
    by (simp add: fx_goal_defs autoSave_due_def goal_validate_def check_milestone_def)
  from c g1 g2 g3 show ?thesis
    by simp
qed

text \<open>Claim C9 as stated fails where it says that the persisted state of a failed goal is
  unchanged: a due goal with target date 101 is processed with the clock reading 100
  during \<open>addContribution\<close> and 101 during the later save. The contribution is stored,
  the later save is rejected by the target-date hook, and the stored goal holds the
  contribution together with the old next date 50.\<close>

theorem autoSave_failed_goal_changed_counterexample:
  "processAutoSaves fx_addMonth 100 fx_clock [(2, fx_goal 450000 101 (Some 40000) 50)]
     = ([(2, fx_goal_saved 450000 101 40000 100 50)], 1) \<and>
   goal_save 101 2 (fx_goal_saved 450000 101 40000 100 604800050)
       [(2, fx_goal_saved 450000 101 40000 100 50)]
     = (Inl TargetDateNotInFuture, [(2, fx_goal_saved 450000 101 40000 100 50)]) \<and>
   fx_goal_saved 450000 101 40000 100 50 \<noteq> fx_goal 450000 101 (Some 40000) 50"
  by (simp add: processAutoSaves_def autoSave_due_def autoSave_goal_cases goal_save_cases
        goal_validate_def contribute_def check_milestone_def goal_pre_save_status_def
        write_goal_def fx_goal_defs Let_def)

end
